theory Spec2Isabelle
  imports Complex_Main "HOL-Library.Sublist"
begin

section \<open>Python string primitives\<close>

text \<open>
  A Python \<open>str\<close> is a sequence of code points. The model keeps the code points
  0..255 (one \<open>char\<close> each, Latin-1), on which the operations below are Python's own:
  \<open>str.isspace\<close>, \<open>str.lower\<close>, \<open>str.strip()\<close>, \<open>str.split()\<close>,
  \<open>sep.join\<close>, \<open>a in b\<close>, \<open>s.replace(" ", "")\<close> and \<open>s.split(sep)\<close>.
\<close>

definition is_space :: "char \<Rightarrow> bool" where
  \<comment> \<open>\<open>str.isspace\<close> on one code point below 256: TAB, LF, VT, FF, CR, FS, GS, RS, US,
      SPACE, NEL and NBSP.\<close>
  "is_space ch = (of_char ch \<in> {9::nat, 10, 11, 12, 13, 28, 29, 30, 31, 32, 133, 160})"

definition lower_char :: "char \<Rightarrow> char" where
  \<comment> \<open>\<open>str.lower\<close> on one code point below 256: A-Z and the Latin-1 capitals
      (all of 192..222 but the multiplication sign 215) move up by 32.\<close>
  "lower_char ch =
     (let n = (of_char ch :: nat) in
      if (65 \<le> n \<and> n \<le> 90) \<or> (192 \<le> n \<and> n \<le> 222 \<and> n \<noteq> 215)
      then char_of (n + 32) else ch)"

definition lower :: "string \<Rightarrow> string" where
  "lower s = map lower_char s"

definition strip :: "string \<Rightarrow> string" where
  \<comment> \<open>\<open>s.strip()\<close>: whitespace removed at both ends.\<close>
  "strip s = rev (dropWhile is_space (rev (dropWhile is_space s)))"

function split_ws :: "string \<Rightarrow> string list" where
  \<comment> \<open>\<open>s.split()\<close>: the maximal runs of non-whitespace, in order.\<close>
  "split_ws s =
     (case dropWhile is_space s of
        [] \<Rightarrow> []
      | c # cs \<Rightarrow> takeWhile (\<lambda>x. \<not> is_space x) (c # cs)
                 # split_ws (dropWhile (\<lambda>x. \<not> is_space x) (c # cs)))"
  by pat_completeness auto
termination
proof (relation "measure length")
  show "wf (measure length)" by simp
next
  fix s :: string and c cs
  assume d: "dropWhile is_space s = c # cs"
  have "\<not> is_space c" using d by (metis hd_dropWhile list.distinct(1) list.sel(1))
  then have "length (dropWhile (\<lambda>x. \<not> is_space x) (c # cs)) \<le> length cs"
    by (simp add: length_dropWhile_le)
  moreover have "length (c # cs) \<le> length s"
    using d by (metis length_dropWhile_le)
  ultimately show "(dropWhile (\<lambda>x. \<not> is_space x) (c # cs), s) \<in> measure length"
    by simp
qed

declare split_ws.simps [simp del]

fun join :: "string \<Rightarrow> string list \<Rightarrow> string" where
  \<comment> \<open>\<open>sep.join(xs)\<close>\<close>
  "join sep [] = []"
| "join sep [x] = x"
| "join sep (x # y # ys) = x @ sep @ join sep (y # ys)"

fun substr_in :: "string \<Rightarrow> string \<Rightarrow> bool" where
  \<comment> \<open>\<open>a in b\<close> on strings: \<open>a\<close> occurs in \<open>b\<close> as a contiguous run.\<close>
  "substr_in a [] = (a = [])"
| "substr_in a (y # ys) = (prefix a (y # ys) \<or> substr_in a ys)"

definition remove_spaces :: "string \<Rightarrow> string" where
  \<comment> \<open>\<open>s.replace(" ", "")\<close>: every SPACE (code point 32) deleted.\<close>
  "remove_spaces s = filter (\<lambda>ch. ch \<noteq> CHR '' '') s"

section \<open>The rule table (guidance\_rules.json)\<close>

text \<open>
  The table is the parsed JSON document. Every field is read with \<open>dict.get\<close> and a
  default, so each may be absent (\<open>None\<close> here); a dictionary is the list of its items
  in insertion order.
\<close>

record symptom_rule =
  sr_keywords :: "string list option"
  sr_follow_up_questions :: "string list option"
  sr_urgency_rules :: "(string \<times> string) list option"
  sr_analysis_hints :: "string option"
  sr_suggested_advice :: "string option"

record guidance_data =
  gd_symptoms :: "(string \<times> symptom_rule) list option"
  gd_emergency_keywords :: "string list option"
  gd_disclaimer :: "string option"

definition get_or :: "'a option \<Rightarrow> 'a \<Rightarrow> 'a" where
  \<comment> \<open>\<open>d.get(key, default)\<close> on a field that may be absent\<close>
  "get_or field dflt = (case field of None \<Rightarrow> dflt | Some v \<Rightarrow> v)"

section \<open>guidance\_engine.match\_symptoms\<close>

definition complaint_normalize :: "string \<Rightarrow> string" where
  \<comment> \<open>\<open>" ".join(complaint.lower().strip().split())\<close>\<close>
  "complaint_normalize complaint = join '' '' (split_ws (strip (lower complaint)))"

fun keyword_loop :: "string \<Rightarrow> string list \<Rightarrow> bool" where
  \<comment> \<open>The inner \<open>for keyword in keywords\<close> loop: \<open>True\<close> when some pass reaches
      \<open>matched.append(symptom_name); break\<close>, \<open>False\<close> when the loop runs out.\<close>
  "keyword_loop complaint_normalized [] = False"
| "keyword_loop complaint_normalized (keyword # keywords) =
     (let keyword_normalized = strip (lower keyword) in
      if keyword_normalized = complaint_normalized then True
      else if substr_in keyword_normalized complaint_normalized then True
      else if substr_in complaint_normalized keyword_normalized then True
      else
        let keyword_no_space = remove_spaces keyword_normalized;
            complaint_no_space = remove_spaces complaint_normalized
        in if substr_in keyword_no_space complaint_no_space
              \<or> substr_in complaint_no_space keyword_no_space
           then True
           else keyword_loop complaint_normalized keywords)"

fun symptom_loop :: "string \<Rightarrow> (string \<times> symptom_rule) list \<Rightarrow> string list" where
  \<comment> \<open>The outer \<open>for symptom_name, symptom_data in symptoms_data.items()\<close> loop;
      the result is \<open>matched\<close>.\<close>
  "symptom_loop complaint_normalized [] = []"
| "symptom_loop complaint_normalized ((symptom_name, symptom_data) # rest) =
     (if keyword_loop complaint_normalized (get_or (sr_keywords symptom_data) [])
      then symptom_name # symptom_loop complaint_normalized rest
      else symptom_loop complaint_normalized rest)"

fun match_symptoms :: "string option \<Rightarrow> (string \<times> symptom_rule) list \<Rightarrow> string list" where
  \<comment> \<open>\<open>if not complaint: return []\<close> takes both \<open>None\<close> and the empty string.\<close>
  "match_symptoms None symptoms_data = []"
| "match_symptoms (Some complaint) symptoms_data =
     (if complaint = [] then []
      else symptom_loop (complaint_normalize complaint) symptoms_data)"

subsection \<open>The fourth pass alone\<close>

text \<open>
  The matcher with passes 1 to 3 deleted from the keyword loop and nothing else changed:
  the guard on the empty complaint, the normalization and the two loops are those of
  \<open>match_symptoms\<close>. It is the reference the four-pass loop is compared with.
\<close>

fun keyword_loop_pass4 :: "string \<Rightarrow> string list \<Rightarrow> bool" where
  "keyword_loop_pass4 complaint_normalized [] = False"
| "keyword_loop_pass4 complaint_normalized (keyword # keywords) =
     (let keyword_normalized = strip (lower keyword);
          keyword_no_space = remove_spaces keyword_normalized;
          complaint_no_space = remove_spaces complaint_normalized
      in if substr_in keyword_no_space complaint_no_space
            \<or> substr_in complaint_no_space keyword_no_space
         then True
         else keyword_loop_pass4 complaint_normalized keywords)"

fun symptom_loop_pass4 :: "string \<Rightarrow> (string \<times> symptom_rule) list \<Rightarrow> string list" where
  "symptom_loop_pass4 complaint_normalized [] = []"
| "symptom_loop_pass4 complaint_normalized ((symptom_name, symptom_data) # rest) =
     (if keyword_loop_pass4 complaint_normalized (get_or (sr_keywords symptom_data) [])
      then symptom_name # symptom_loop_pass4 complaint_normalized rest
      else symptom_loop_pass4 complaint_normalized rest)"

fun match_symptoms_pass4 :: "string option \<Rightarrow> (string \<times> symptom_rule) list \<Rightarrow> string list" where
  "match_symptoms_pass4 None symptoms_data = []"
| "match_symptoms_pass4 (Some complaint) symptoms_data =
     (if complaint = [] then []
      else symptom_loop_pass4 (complaint_normalize complaint) symptoms_data)"

subsection \<open>A one-symptom rule table\<close>

definition headache_rule :: symptom_rule where
  "headache_rule = \<lparr>sr_keywords = Some [''headpain''], sr_follow_up_questions = None,
     sr_urgency_rules = None, sr_analysis_hints = None, sr_suggested_advice = None\<rparr>"

section \<open>guidance\_engine.build\_guidance\_bundle\<close>

record guidance_bundle =
  gb_matched_symptoms :: "string list"
  gb_follow_up_questions :: "string list"
  gb_urgency_rules :: "(string \<times> string) list"
  gb_analysis_hints :: "string list"
  gb_suggested_advice :: "string list"
  gb_emergency_keywords :: "string list"
  gb_disclaimer :: string

fun dict_set :: "('k \<times> 'v) list \<Rightarrow> 'k \<Rightarrow> 'v \<Rightarrow> ('k \<times> 'v) list" where
  \<comment> \<open>\<open>d[k] = v\<close>: a key already there keeps its place, a new one goes last.\<close>
  "dict_set [] k v = [(k, v)]"
| "dict_set ((k', v') # rest) k v =
     (if k' = k then (k, v) # rest else (k', v') # dict_set rest k v)"

fun collect_questions :: "string list \<Rightarrow> string list \<Rightarrow> string list" where
  \<comment> \<open>\<open>for q in questions: if q not in bundle["follow_up_questions"]: ... .append(q)\<close>\<close>
  "collect_questions seen [] = seen"
| "collect_questions seen (q # questions) =
     collect_questions (if q \<in> set seen then seen else seen @ [q]) questions"

fun collect_urgency ::
  "(string \<times> string list) list \<Rightarrow> (string \<times> string) list \<Rightarrow> (string \<times> string list) list"
where
  \<comment> \<open>\<open>for level, rule in urgency.items()\<close>: a level not yet in \<open>combined_urgency\<close> starts
      with the empty list, then the rule is appended to the level's list.\<close>
  "collect_urgency combined_urgency [] = combined_urgency"
| "collect_urgency combined_urgency ((level, rule) # urgency) =
     collect_urgency
       (case map_of combined_urgency level of
          None \<Rightarrow> dict_set combined_urgency level ([] @ [rule])
        | Some rules \<Rightarrow> dict_set combined_urgency level (rules @ [rule]))
       urgency"

definition collect_text :: "string list \<Rightarrow> string \<Rightarrow> string list" where
  \<comment> \<open>\<open>if hints and hints not in all_hints: all_hints.append(hints)\<close>, and the same
      for the advice\<close>
  "collect_text seen t = (if t \<noteq> [] \<and> t \<notin> set seen then seen @ [t] else seen)"

record collected =
  follow_ups :: "string list"
  combined :: "(string \<times> string list) list"
  all_hints :: "string list"
  all_advice :: "string list"

fun bundle_loop ::
  "(string \<times> symptom_rule) list \<Rightarrow> collected \<Rightarrow> string list \<Rightarrow> collected"
where
  \<comment> \<open>\<open>for symptom_name in matched_symptoms\<close>; a name that is not a key of the table
      is skipped (\<open>continue\<close>).\<close>
  "bundle_loop symptoms_data acc [] = acc"
| "bundle_loop symptoms_data acc (symptom_name # matched) =
     (case map_of symptoms_data symptom_name of
        None \<Rightarrow> bundle_loop symptoms_data acc matched
      | Some symptom_data \<Rightarrow>
          bundle_loop symptoms_data
            \<lparr>follow_ups = collect_questions (follow_ups acc)
                 (get_or (sr_follow_up_questions symptom_data) []),
             combined = collect_urgency (combined acc)
                 (get_or (sr_urgency_rules symptom_data) []),
             all_hints = collect_text (all_hints acc)
                 (get_or (sr_analysis_hints symptom_data) []),
             all_advice = collect_text (all_advice acc)
                 (get_or (sr_suggested_advice symptom_data) [])\<rparr>
            matched)"

definition flatten_rules :: "string list \<Rightarrow> string" where
  \<comment> \<open>\<open>" OR ".join(rules) if len(rules) > 1 else rules[0]\<close>; every list of
      \<open>combined_urgency\<close> holds a rule (lemma \<open>combined_nonempty\<close>), so \<open>rules[0]\<close>
      exists.\<close>
  "flatten_rules rules = (if length rules > 1 then join '' OR '' rules else hd rules)"

definition build_guidance_bundle :: "string list \<Rightarrow> guidance_data \<Rightarrow> guidance_bundle" where
  "build_guidance_bundle matched_symptoms guidance_data =
     (let symptoms_data = get_or (gd_symptoms guidance_data) [];
          emergency_keywords = get_or (gd_emergency_keywords guidance_data) [];
          disclaimer = get_or (gd_disclaimer guidance_data) [];
          bundle = \<lparr>gb_matched_symptoms = matched_symptoms,
                    gb_follow_up_questions = [],
                    gb_urgency_rules = [],
                    gb_analysis_hints = [],
                    gb_suggested_advice = [],
                    gb_emergency_keywords = emergency_keywords,
                    gb_disclaimer = disclaimer\<rparr>
      in if matched_symptoms = [] then bundle
         else
           let acc = bundle_loop symptoms_data
                 \<lparr>follow_ups = [], combined = [], all_hints = [], all_advice = []\<rparr>
                 matched_symptoms
           in bundle
                \<lparr>gb_follow_up_questions := follow_ups acc,
                 gb_urgency_rules := map (\<lambda>(level, rules). (level, flatten_rules rules)) (combined acc),
                 gb_analysis_hints := all_hints acc,
                 gb_suggested_advice := all_advice acc\<rparr>)"

definition supplied_rules ::
  "string list \<Rightarrow> (string \<times> symptom_rule) list \<Rightarrow> string \<Rightarrow> string list"
where
  \<comment> \<open>The rule texts the matched symptoms supply for one urgency level, in
      matched-symptom order: the reference the merged value is compared with.\<close>
  "supplied_rules matched_symptoms symptoms_data level =
     concat (map (\<lambda>symptom_name.
         case map_of symptoms_data symptom_name of
           None \<Rightarrow> []
         | Some symptom_data \<Rightarrow>
             map snd (filter (\<lambda>(l, rule). l = level)
               (get_or (sr_urgency_rules symptom_data) [])))
       matched_symptoms)"

section \<open>The patient schema\<close>

text \<open>
  A key of a Python dictionary is missing, holds \<open>None\<close>, or holds a value; \<open>dict.get\<close>
  with a default tells the three apart. Only the keys the modelled functions read are
  kept.
\<close>

datatype 'a field = Absent | Null | Val 'a

record demographics =
  age :: "int field"
  gender :: "string field"

record medical_schema =
  ms_demographics :: "demographics option"
  ms_medical_history :: "string list option"
  ms_current_complaint :: "string field"
  ms_pregnancy_status :: "string field"

section \<open>guidance\_engine.get\_guidance\<close>

text \<open>
  \<open>load_guidance_rules\<close> opens and parses \<open>guidance_rules.json\<close>. The file system is
  explicit state: the state of the rules file, and the number of times the file has been
  opened so far.
\<close>

datatype rules_source = Missing | Invalid_Json | Unreadable | Document guidance_data







definition example_schema :: medical_schema where
  "example_schema = \<lparr>ms_demographics = Some \<lparr>age = Val 30, gender = Val ''female''\<rparr>,
     ms_medical_history = Some [], ms_current_complaint = Val ''head pain'',
     ms_pregnancy_status = Null\<rparr>"

section \<open>llm\_prompt: the prompt composer\<close>

definition digit_char :: "nat \<Rightarrow> char" where
  "digit_char d = char_of (48 + d)"

function str_nat :: "nat \<Rightarrow> string" where
  "str_nat n = (if n < 10 then [digit_char n] else str_nat (n div 10) @ [digit_char (n mod 10)])"
  by pat_completeness auto
termination
  by (relation "measure id") auto

declare str_nat.simps [simp del]

definition str_int :: "int \<Rightarrow> string" where
  \<comment> \<open>\<open>str(n)\<close> of a Python integer, as an f-string renders it\<close>
  "str_int i = (if i < 0 then CHR ''-'' # str_nat (nat (- i)) else str_nat (nat i))"

definition show_field :: "('a \<Rightarrow> string) \<Rightarrow> string \<Rightarrow> 'a field \<Rightarrow> string" where
  \<comment> \<open>\<open>f"{d.get(key, default)}"\<close>: a key that holds \<open>None\<close> is rendered \<open>None\<close>.\<close>
  "show_field render dflt f =
     (case f of Absent \<Rightarrow> dflt | Null \<Rightarrow> ''None'' | Val v \<Rightarrow> render v)"

definition build_system_prompt :: string where
  \<comment> \<open>The text of the source's string literal, one list element per line.\<close>
  \<open>build_system_prompt =
     join [CHR 0x0A]
       [''You are a medical guidance assistant. You are NOT a doctor and do NOT diagnose.'',
        [],
        ''Your role:'',
        ''- Ask follow-up questions before giving advice'',
        ''- Use provided guidance as suggestions, not rules'',
        ''- DO NOT contradict urgency classifications'',
        ''- Be concise and helpful'',
        ''- Always ask clarifying questions first, then provide guidance'',
        [],
        ''Response format: You MUST respond with valid JSON in one of these formats:'',
        [],
        ''1. To ask a follow-up question:'',
        ''{'',
        ''  "type": "question",'',
        ''  "text": "What is your temperature?",'',
        ''  "expected_format": "Eg: 101'' @ [CHR 0xB0] @ ''F"'',
        ''}'',
        [],
        ''2. To provide analysis and guidance:'',
        ''{'',
        ''  "type": "analysis", '',
        ''  "summary": "Based on your symptoms...",'',
        ''  "urgency": "self_care|doctor_visit|emergency",'',
        ''  "advice": ["Rest and stay hydrated", "Monitor symptoms"]'',
        ''}'',
        [],
        ''3. To offer next steps:'',
        ''{'',
        ''  "type": "decision",'',
        ''  "text": "Would you like a summary report or continue chatting?",'',
        ''  "options": ["Generate report", "Continue"]'',
        ''}'',
        [],
        ''Always respond with valid JSON only.'']\<close>

definition build_context_prompt :: "medical_schema \<Rightarrow> guidance_bundle \<Rightarrow> string \<Rightarrow> string" where
  \<comment> \<open>The f-string of the source, one list element per line. \<open>guidance\<close> is a bundle
      of the engine, which holds every key.\<close>
  \<open>build_context_prompt medical_schema guidance user_message =
     (let age = (case ms_demographics medical_schema of
                   None \<Rightarrow> ''unknown''
                 | Some demographics \<Rightarrow> show_field str_int ''unknown'' (age demographics));
          gender = (case ms_demographics medical_schema of
                   None \<Rightarrow> ''unknown''
                 | Some demographics \<Rightarrow> show_field id ''unknown'' (gender demographics));
          current_complaint =
            show_field id ''none specified'' (ms_current_complaint medical_schema);
          medical_history = get_or (ms_medical_history medical_schema) [];
          pregnancy_status =
            (case ms_pregnancy_status medical_schema of
               Val p \<Rightarrow> if p = [] then ''not applicable'' else p
             | _ \<Rightarrow> ''not applicable'');
          matched_symptoms = gb_matched_symptoms guidance;
          follow_up_questions = gb_follow_up_questions guidance;
          urgency_rules = gb_urgency_rules guidance;
          analysis_hints = gb_analysis_hints guidance;
          suggested_advice = gb_suggested_advice guidance;
          emergency_keywords = gb_emergency_keywords guidance
      in join [CHR 0x0A]
       [[],
        ''PATIENT CONTEXT:'',
        ''- Age: '' @ age,
        ''- Gender: '' @ gender,
        ''- Current complaint: '' @ current_complaint,
        ''- Medical history: ''
           @ (if medical_history \<noteq> [] then join '', '' medical_history else ''none''),
        ''- Pregnancy status: '' @ pregnancy_status,
        [],
        ''MATCHED SYMPTOMS: '' @ join '', '' matched_symptoms,
        [],
        ''SUGGESTED FOLLOW-UP QUESTIONS:'',
        join [CHR 0x0A] (map (\<lambda>q. ''- '' @ q) (take 3 follow_up_questions)),
        [],
        ''URGENCY GUIDELINES:'',
        ''- Self-care: '' @ get_or (map_of urgency_rules ''self_care'') ''N/A'',
        ''- Doctor visit: '' @ get_or (map_of urgency_rules ''doctor_visit'') ''N/A'',
        ''- Emergency: '' @ get_or (map_of urgency_rules ''emergency'') ''N/A'',
        [],
        ''ANALYSIS HINTS:'',
        join [CHR 0x0A] (map (\<lambda>hint. ''- '' @ hint) analysis_hints),
        [],
        ''SUGGESTED ADVICE:'',
        join [CHR 0x0A] (map (\<lambda>advice. ''- '' @ advice) suggested_advice),
        [],
        ''EMERGENCY KEYWORDS TO WATCH FOR:'',
        join '', '' (take 10 emergency_keywords),
        [],
        ''USER'' @ [CHR 0x27] @ ''S CURRENT MESSAGE: "'' @ user_message @ ''"'',
        [],
        ''Instructions:'',
        ''1. If this is early in the conversation or you need more information, ask a relevant follow-up question'',
        ''2. If you have enough information, provide analysis with appropriate urgency level'',
        ''3. Use the guidance above as suggestions, not strict rules'',
        ''4. Do NOT diagnose or make definitive medical statements'',
        ''5. If user mentions emergency keywords, classify as "emergency" urgency'',
        []])\<close>

definition build_full_prompt :: "medical_schema \<Rightarrow> guidance_bundle \<Rightarrow> string \<Rightarrow> string" where
  \<comment> \<open>\<open>f"{system_prompt}\n\n{context_prompt}"\<close>\<close>
  "build_full_prompt medical_schema guidance user_message =
     build_system_prompt @ [CHR 0x0A, CHR 0x0A]
       @ build_context_prompt medical_schema guidance user_message"

definition example_bundle :: guidance_bundle where
  "example_bundle =
     \<lparr>gb_matched_symptoms = [''feverish'', ''headache''],
      gb_follow_up_questions = [''How long?''],
      gb_urgency_rules = [(''self_care'', ''A''), (''emergency'', ''B'')],
      gb_analysis_hints = [], gb_suggested_advice = [], gb_emergency_keywords = [],
      gb_disclaimer = []\<rparr>"

section \<open>JSON values and the external model call\<close>

text \<open>
  What \<open>json.loads\<close> returns: \<open>None\<close>, a boolean, an integer, a float, a string, a
  list or a dictionary (the list of its items in insertion order, looked up with
  \<open>map_of\<close>, assigned with \<open>dict_set\<close>).
\<close>

datatype json =
    JNull
  | JBool bool
  | JInt int
  | JFloat real
  | JStr string
  | JArr "json list"
  | JObj "(string \<times> json) list"

fun truthy :: "json \<Rightarrow> bool" where
  \<comment> \<open>the truth value of a Python object in \<open>if x\<close>\<close>
  "truthy JNull = False"
| "truthy (JBool b) = b"
| "truthy (JInt i) = (i \<noteq> 0)"
| "truthy (JFloat r) = (r \<noteq> 0)"
| "truthy (JStr s) = (s \<noteq> [])"
| "truthy (JArr xs) = (xs \<noteq> [])"
| "truthy (JObj kvs) = (kvs \<noteq> [])"

text \<open>
  The HTTP exchange with the hosted model is outside the program. \<open>requests.post\<close>
  raises (timeout, connection error) or returns a response with a status code. Of a
  response the program reads \<open>response.json()["choices"][0]["message"]["content"].strip()\<close>
  and parses it with \<open>json.loads\<close>: reading the content raises (\<open>No_Content\<close>),
  or the content is no JSON text (\<open>Not_Json\<close>, the \<open>JSONDecodeError\<close>), or it parses to
  a JSON value.
\<close>

datatype reply_content = No_Content | Not_Json | Json json

record http_response =
  status_code :: nat
  reply :: reply_content

datatype post_outcome = Raises | Returns http_response

definition has_key :: "string option \<Rightarrow> bool" where
  \<comment> \<open>\<open>CEREBRAS_API_KEY\<close> is \<open>os.getenv(...)\<close>: \<open>None\<close> or a string; \<open>not key\<close>
      holds for \<open>None\<close> and for the empty string.\<close>
  "has_key api_key = (case api_key of None \<Rightarrow> False | Some k \<Rightarrow> k \<noteq> [])"

section \<open>llm\_client.get\_llm\_response\<close>

definition safe_question :: "(string \<times> json) list" where
  "safe_question =
     [(''type'', JStr ''question''),
      (''text'', JStr ''Could you provide more details about your symptoms?''),
      (''expected_format'', JStr (''Please describe what you'' @ [CHR 0x27] @ ''re experiencing''))]"

definition call_cerebras_llm :: "string option \<Rightarrow> (string \<Rightarrow> post_outcome) \<Rightarrow> string \<Rightarrow> json" where
  \<comment> \<open>\<open>post prompt\<close> is the outcome of \<open>requests.post\<close> for the request that carries
      the prompt. Python's \<open>None\<close> is \<open>JNull\<close>.\<close>
  "call_cerebras_llm api_key post prompt =
     (if \<not> has_key api_key then JNull
      else case post prompt of
             Raises \<Rightarrow> JNull
           | Returns response \<Rightarrow>
               if status_code response = 200 then
                 (case reply response of
                    No_Content \<Rightarrow> JNull
                  | Not_Json \<Rightarrow> JObj safe_question
                  | Json parsed_response \<Rightarrow> parsed_response)
               else JNull)"

definition fallback_response :: "(string \<times> json) list" where
  "fallback_response =
     [(''type'', JStr ''question''),
      (''text'', JStr ''Can you tell me more about your symptoms?''),
      (''expected_format'',
         JStr (''Please describe what you'' @ [CHR 0x27] @ ''re experiencing in detail''))]"

definition get_llm_response ::
  "string option \<Rightarrow> (string \<Rightarrow> post_outcome) \<Rightarrow> medical_schema \<Rightarrow> guidance_bundle \<Rightarrow> string
     \<Rightarrow> (string \<times> json) list"
where
  \<comment> \<open>\<open>llm_response.get("type")\<close> is \<open>None\<close> for a missing key; \<open>x in [...]\<close> compares
      with \<open>==\<close>.\<close>
  "get_llm_response api_key post medical_schema guidance user_message =
     (let prompt = build_full_prompt medical_schema guidance user_message;
          llm_response = call_cerebras_llm api_key post prompt
      in case llm_response of
           JObj d \<Rightarrow>
             if truthy llm_response
                \<and> get_or (map_of d ''type'') JNull
                    \<in> set [JStr ''question'', JStr ''analysis'', JStr ''decision'']
             then d
             else fallback_response
         | _ \<Rightarrow> fallback_response)"

section \<open>llm\_client.generate\_medical\_report\<close>

text \<open>
  \<open>responses\<close> is a list of parsed JSON values and \<open>symptom_data\<close> a dictionary or
  \<open>None\<close>. The statements before the \<open>try\<close> raise on values of the wrong shape
  (\<open>qa.get\<close>, \<open>q.lower()\<close>, \<open>rationale.items()\<close>, \<open>', '.join(value)\<close>, the
  \<open>for\<close> over the red flags), and so does \<open>_extract_age_number\<close> on an age answer
  that is a number; an exception is the value \<open>Inl\<close>. The text of the request (the
  context and the task) goes to the model only, whose reply is any \<open>post_outcome\<close>, so
  of the statements that build it the model keeps where they raise.
\<close>

datatype py_error = AttributeError | TypeError

record extracted =
  chief_complaint :: json
  patient_name :: json
  patient_age :: json
  patient_gender :: json

definition or_else :: "json \<Rightarrow> json \<Rightarrow> json" where
  \<comment> \<open>\<open>x or default\<close>\<close>
  "or_else x dflt = (if truthy x then x else dflt)"

fun is_str :: "json \<Rightarrow> bool" where
  "is_str (JStr s) = True"
| "is_str _ = False"

fun extract_loop :: "extracted \<Rightarrow> json list \<Rightarrow> py_error + extracted" where
  \<comment> \<open>\<open>for qa in responses\<close>: \<open>qa.get\<close> needs a dictionary and \<open>q.lower()\<close> a
      string; then the \<open>if\<close>/\<open>elif\<close> chain on the lowercased question.\<close>
  "extract_loop e [] = Inr e"
| "extract_loop e (qa # responses) =
     (case qa of
        JObj d \<Rightarrow>
          (let q = get_or (map_of d ''question'') (JStr []);
               a = get_or (map_of d ''answer'') (JStr [])
           in case q of
                JStr question \<Rightarrow>
                  extract_loop
                    (if substr_in ''name'' (lower question) then e\<lparr>patient_name := a\<rparr>
                     else if substr_in ''chief complaint'' (lower question)
                             \<or> substr_in ''current ailment'' (lower question)
                       then e\<lparr>chief_complaint := a\<rparr>
                     else if substr_in ''age'' (lower question) \<and> \<not> truthy (patient_age e)
                       then e\<lparr>patient_age := a\<rparr>
                     else if substr_in ''sex'' (lower question)
                             \<or> substr_in ''gender'' (lower question)
                       then e\<lparr>patient_gender := a\<rparr>
                     else e)
                    responses
              | _ \<Rightarrow> Inl AttributeError)
      | _ \<Rightarrow> Inl AttributeError)"

fun rationale_loop :: "(string \<times> json) list \<Rightarrow> py_error option" where
  \<comment> \<open>\<open>for key, value in rationale.items()\<close>: \<open>', '.join(value)\<close> on a list raises
      \<open>TypeError\<close> when an element is not a string.\<close>
  "rationale_loop [] = None"
| "rationale_loop ((key, value) # rest) =
     (case value of
        JArr xs \<Rightarrow> if list_all is_str xs then rationale_loop rest else Some TypeError
      | _ \<Rightarrow> rationale_loop rest)"

fun iterable :: "json \<Rightarrow> bool" where
  \<comment> \<open>what a \<open>for\<close> loop accepts: a string, a list or a dictionary\<close>
  "iterable (JStr s) = True"
| "iterable (JArr xs) = True"
| "iterable (JObj kvs) = True"
| "iterable _ = False"

definition context_error :: "(string \<times> json) list option \<Rightarrow> py_error option" where
  \<comment> \<open>The block under \<open>if symptom_data:\<close>, reduced to the exception it raises, if any:
      the four keys are read in this order, each only when present.\<close>
  "context_error symptom_data =
     (case symptom_data of
        None \<Rightarrow> None
      | Some d \<Rightarrow>
          if d = [] then None
          else
            case (case map_of d ''triage_rationale'' of
                    None \<Rightarrow> None
                  | Some (JObj rationale) \<Rightarrow> rationale_loop rationale
                  | Some _ \<Rightarrow> Some AttributeError) of
              Some err \<Rightarrow> Some err
            | None \<Rightarrow>
                case (case map_of d ''immediate_red_flags'' of
                        None \<Rightarrow> None
                      | Some flags \<Rightarrow> if iterable flags then None else Some TypeError) of
                  Some err \<Rightarrow> Some err
                | None \<Rightarrow>
                    case (case map_of d ''urgency_decision_logic'' of
                            None \<Rightarrow> None
                          | Some (JObj logic) \<Rightarrow> None
                          | Some _ \<Rightarrow> Some AttributeError) of
                      Some err \<Rightarrow> Some err
                    | None \<Rightarrow>
                        (case map_of d ''advice'' of
                           None \<Rightarrow> None
                         | Some (JObj advice_data) \<Rightarrow> None
                         | Some _ \<Rightarrow> Some AttributeError))"

function split_on :: "string \<Rightarrow> string \<Rightarrow> string \<Rightarrow> string list" where
  \<comment> \<open>\<open>s.split(sep)\<close> for a separator that is not empty, scanning from the left;
      \<open>cur\<close> is the piece read so far.\<close>
  "split_on sep cur s =
     (if s = [] then [cur]
      else if sep \<noteq> [] \<and> prefix sep s then cur # split_on sep [] (drop (length sep) s)
      else split_on sep (cur @ [hd s]) (tl s))"
  by pat_completeness auto
termination
  by (relation "measure (\<lambda>(sep, cur, s). length s)") auto

declare split_on.simps [simp del]

definition py_split :: "string \<Rightarrow> string \<Rightarrow> string list" where
  "py_split sep s = split_on sep [] s"

definition is_digit :: "char \<Rightarrow> bool" where
  "is_digit ch = (48 \<le> (of_char ch :: nat) \<and> (of_char ch :: nat) \<le> 57)"

fun int_digits :: "nat \<Rightarrow> bool \<Rightarrow> string \<Rightarrow> nat option" where
  \<comment> \<open>decimal digits, with single underscores allowed between two digits\<close>
  "int_digits acc after_digit [] = (if after_digit then Some acc else None)"
| "int_digits acc after_digit (ch # rest) =
     (if is_digit ch then int_digits (10 * acc + (of_char ch - 48)) True rest
      else if ch = CHR ''_'' \<and> after_digit then int_digits acc False rest
      else None)"

definition py_int :: "string \<Rightarrow> int option" where
  \<comment> \<open>\<open>int(s)\<close>, \<open>None\<close> for \<open>ValueError\<close>: surrounding whitespace, an optional sign,
      then the digits (the interpreter's limit on the length of a numeral is left out).\<close>
  "py_int s =
     (case strip s of
        [] \<Rightarrow> None
      | c # cs \<Rightarrow>
          if c = CHR ''-'' then map_option (\<lambda>n. - int n) (int_digits 0 False cs)
          else if c = CHR ''+'' then map_option int (int_digits 0 False cs)
          else map_option int (int_digits 0 False (c # cs)))"

definition age_of_string :: "string \<Rightarrow> int" where
  \<comment> \<open>\<open>_extract_age_number\<close> on a string that is not empty: both \<open>try\<close> blocks have
      a bare \<open>except\<close>, so nothing is raised.\<close>
  "age_of_string s =
     (let direct = (case py_int s of None \<Rightarrow> 0 | Some n \<Rightarrow> n) in
      if substr_in ''_'' s then
        (case py_split ''_'' s of
           p0 # p1 # _ \<Rightarrow>
             (case (py_int p0, py_int p1) of
                (Some lo, Some hi) \<Rightarrow> (lo + hi) div 2
              | _ \<Rightarrow> direct)
         | _ \<Rightarrow> direct)
      else direct)"

definition extract_age_number :: "json \<Rightarrow> py_error + int" where
  \<comment> \<open>\<open>_extract_age_number(age_str)\<close> on whatever the age answer is. \<open>"_" in age_str\<close>
      raises \<open>TypeError\<close> on a number or a boolean; on a list or a dictionary it is a
      membership test, and when it holds \<open>age_str.split("_")\<close> raises
      \<open>AttributeError\<close>, before the \<open>try\<close>; when it does not, \<open>int(age_str)\<close>
      raises inside the second \<open>try\<close> and the result is 0.\<close>
  "extract_age_number age_str =
     (if \<not> truthy age_str then Inr 0
      else case age_str of
             JStr s \<Rightarrow> Inr (age_of_string s)
           | JArr xs \<Rightarrow> if JStr ''_'' \<in> set xs then Inl AttributeError else Inr 0
           | JObj kvs \<Rightarrow> if map_of kvs ''_'' \<noteq> None then Inl AttributeError else Inr 0
           | _ \<Rightarrow> Inl TypeError)"

definition default_urgency_of :: "(string \<times> json) list option \<Rightarrow> json" where
  \<comment> \<open>\<open>symptom_data.get("default_urgency", "green_home_care") if symptom_data else
      "green_home_care"\<close>\<close>
  "default_urgency_of symptom_data =
     (case symptom_data of
        None \<Rightarrow> JStr ''green_home_care''
      | Some d \<Rightarrow>
          if d = [] then JStr ''green_home_care''
          else get_or (map_of d ''default_urgency'') (JStr ''green_home_care''))"

definition patient_info :: "extracted \<Rightarrow> int \<Rightarrow> json" where
  \<comment> \<open>the \<open>patient_info\<close> dictionary, \<open>age_number\<close> being what \<open>_extract_age_number\<close>
      returned\<close>
  "patient_info e age_number =
     JObj [(''name'', or_else (patient_name e) (JStr ''Unknown'')),
           (''age'', JInt age_number),
           (''gender'', or_else (patient_gender e) (JStr ''unknown''))]"

definition py_str :: "(json \<Rightarrow> string) \<Rightarrow> json \<Rightarrow> string" where
  \<comment> \<open>\<open>f"{v}"\<close>: a string is rendered as itself; for any other value the text is the
      interpreter's \<open>str(v)\<close>, the parameter \<open>str_of\<close>.\<close>
  "py_str str_of v = (case v of JStr s \<Rightarrow> s | _ \<Rightarrow> str_of v)"

definition generate_fallback_report ::
  "(json \<Rightarrow> string) \<Rightarrow> string \<Rightarrow> string \<Rightarrow> extracted \<Rightarrow> (string \<times> json) list option
     \<Rightarrow> py_error + (string \<times> json) list"
where
  \<comment> \<open>\<open>uuid\<close> is what \<open>str(uuid.uuid4())\<close> returns and \<open>now\<close> what
      \<open>datetime.utcnow().isoformat()\<close> returns at the call. The only statement that
      can raise is \<open>_extract_age_number(patient_age)\<close>.\<close>
  "generate_fallback_report str_of uuid now e symptom_data =
     (let topic = or_else (chief_complaint e) (JStr ''general_health'');
          default_urgency = default_urgency_of symptom_data
      in case extract_age_number (patient_age e) of
           Inl err \<Rightarrow> Inl err
         | Inr age_number \<Rightarrow> Inr
         [(''report_id'', JStr uuid),
          (''assessment_topic'', topic),
          (''generated_at'', JStr (now @ ''Z'')),
          (''patient_info'', patient_info e age_number),
          (''summary'', JArr
             [JStr (''Assessment received for '' @ py_str str_of topic @ ''.''),
              JStr ''Your symptoms have been documented.'',
              JStr ''A healthcare professional should review your case.'']),
          (''possible_causes'', JArr
             [JObj
                [(''id'', JStr ''general_assessment''),
                 (''title'', JStr ''Various possible conditions''),
                 (''short_description'', JStr ''Multiple conditions could explain symptoms''),
                 (''subtitle'', JStr ''Requires professional medical evaluation''),
                 (''severity'', JStr ''unknown''),
                 (''probability'', JFloat 1),
                 (''detail'', JObj
                    [(''about_this'', JArr
                        [JStr ''Multiple conditions could explain your symptoms.'',
                         JStr ''A medical professional can provide accurate diagnosis.'',
                         JStr ''Your specific case requires individual assessment.'']),
                     (''how_common'', JObj
                        [(''percentage'', JInt 50),
                         (''description'',
                            JStr ''Varies widely based on specific symptoms and history'')]),
                     (''what_you_can_do_now'', JArr
                        [JStr ''Document any changes in your symptoms'',
                         JStr ''Monitor your condition closely'',
                         JStr ''Keep track of when symptoms occur'',
                         JStr ''Note what makes symptoms better or worse'']),
                     (''warning'', JStr ''Seek immediate medical attention if symptoms worsen or new concerning symptoms develop'')])]]),
          (''advice'', JArr
             [JStr ''Document any changes in your symptoms.'',
              JStr ''Monitor your condition closely.'',
              JStr ''Seek medical attention if symptoms worsen.'',
              JStr ''Consult with a healthcare provider for proper diagnosis.'']),
          (''urgency_level'', default_urgency)])"

definition ensure_key :: "(string \<times> json) list \<Rightarrow> string \<Rightarrow> json \<Rightarrow> (string \<times> json) list" where
  \<comment> \<open>\<open>if key not in report: report[key] = default\<close>\<close>
  "ensure_key report k dflt =
     (case map_of report k of None \<Rightarrow> dict_set report k dflt | Some v \<Rightarrow> report)"

definition complete_report ::
  "string \<Rightarrow> string \<Rightarrow> extracted \<Rightarrow> (string \<times> json) list option \<Rightarrow> (string \<times> json) list
     \<Rightarrow> py_error + (string \<times> json) list"
where
  \<comment> \<open>the statements between \<open>report = json.loads(llm_response)\<close> and
      \<open>return report\<close>, for a \<open>report\<close> that is a dictionary; again only
      \<open>_extract_age_number(patient_age)\<close> can raise\<close>
  "complete_report uuid now e symptom_data report =
     (let r1 = dict_set report ''report_id'' (JStr uuid);
          r2 = dict_set r1 ''generated_at'' (JStr (now @ ''Z''))
      in case extract_age_number (patient_age e) of
           Inl err \<Rightarrow> Inl err
         | Inr age_number \<Rightarrow>
             let r3 = dict_set r2 ''patient_info'' (patient_info e age_number);
                 r4 = ensure_key r3 ''assessment_topic''
                        (or_else (chief_complaint e) (JStr ''general_health''));
                 r5 = ensure_key r4 ''summary''
                        (JArr [JStr ''Assessment completed based on provided information.'']);
                 r6 = ensure_key r5 ''possible_causes'' (JArr []);
                 r7 = ensure_key r6 ''advice''
                        (JArr [JStr ''Consult with a healthcare provider for personalized advice.''])
             in Inr (ensure_key r7 ''urgency_level'' (default_urgency_of symptom_data)))"

definition generate_medical_report ::
  "string option \<Rightarrow> post_outcome \<Rightarrow> (json \<Rightarrow> string) \<Rightarrow> string \<Rightarrow> string \<Rightarrow> json list
     \<Rightarrow> (string \<times> json) list option \<Rightarrow> py_error + (string \<times> json) list"
where
  \<comment> \<open>\<open>outcome\<close> is the outcome of \<open>requests.post\<close> for the report request. An
      exception of the extraction loop or of the context block leaves the function. Inside
      the \<open>try\<close>, a parsed value that is no dictionary makes \<open>report["report_id"] = ...\<close>
      raise \<open>TypeError\<close>, and \<open>_extract_age_number\<close> may raise: the
      \<open>except Exception\<close> clause answers both with the fallback report, which is built
      outside any \<open>try\<close>.\<close>
  "generate_medical_report api_key outcome str_of uuid now responses symptom_data =
     (case extract_loop
             \<lparr>chief_complaint = JNull, patient_name = JNull, patient_age = JNull,
              patient_gender = JNull\<rparr> responses of
        Inl err \<Rightarrow> Inl err
      | Inr e \<Rightarrow>
          (case context_error symptom_data of
             Some err \<Rightarrow> Inl err
           | None \<Rightarrow>
               let fallback = generate_fallback_report str_of uuid now e symptom_data
               in if \<not> has_key api_key then fallback
                  else case outcome of
                         Raises \<Rightarrow> fallback
                       | Returns response \<Rightarrow>
                           if status_code response = 200 then
                             (case reply response of
                                No_Content \<Rightarrow> fallback
                              | Not_Json \<Rightarrow> fallback
                              | Json (JObj report) \<Rightarrow>
                                  (case complete_report uuid now e symptom_data report of
                                     Inl err \<Rightarrow> fallback
                                   | Inr completed \<Rightarrow> Inr completed)
                              | Json _ \<Rightarrow> fallback)
                           else fallback))"

definition model_report :: "string option \<Rightarrow> post_outcome \<Rightarrow> (string \<times> json) list option" where
  \<comment> \<open>The dictionary the model call produced, if it produced one: the key is set, the
      call returned status 200 and its content parsed to a JSON object.\<close>
  "model_report api_key outcome =
     (if \<not> has_key api_key then None
      else case outcome of
             Returns response \<Rightarrow>
               if status_code response = 200 then
                 (case reply response of Json (JObj report) \<Rightarrow> Some report | _ \<Rightarrow> None)
               else None
           | Raises \<Rightarrow> None)"



subsection \<open>Two replies of the model\<close>


definition diagnosis_reply :: "string \<Rightarrow> post_outcome" where
  "diagnosis_reply prompt =
     Returns \<lparr>status_code = 200, reply = Json (JObj [(''type'', JStr ''diagnosis'')])\<rparr>"

section \<open>medical\_schema.parse\_medical\_history\<close>

definition normalize_value :: "string \<Rightarrow> string" where
  \<comment> \<open>\<open>value.lower().strip()\<close> on a string\<close>
  "normalize_value v = strip (lower v)"

fun separator_loop :: "string list \<Rightarrow> string \<Rightarrow> string list" where
  \<comment> \<open>\<open>for separator in [...]: if separator in history_text: ...; break\<close> with its
      \<open>else\<close> clause, which runs when no separator is found\<close>
  "separator_loop [] history_text = [history_text]"
| "separator_loop (separator # separators) history_text =
     (if substr_in separator history_text
      then map strip (py_split separator history_text)
      else separator_loop separators history_text)"

fun parse_medical_history :: "string option \<Rightarrow> string list" where
  \<comment> \<open>\<open>if not history_text: return []\<close> takes \<open>None\<close> and the empty string.\<close>
  "parse_medical_history None = []"
| "parse_medical_history (Some raw) =
     (if raw = [] then []
      else
        let history_text = normalize_value raw in
        if history_text \<in> set [''none'', ''no'', ''nothing'', ''n/a''] then []
        else
          let items = separator_loop ['','', '';'', ''and'', ''&''] history_text
          in filter (\<lambda>item. item \<noteq> [] \<and> item \<notin> set [''none'', ''no'', ''nothing'']) items)"

section \<open>chatbot\_routes.continue\_chat\<close>

text \<open>
  The endpoint reads the session store (\<open>get_chat_session\<close>, of the module
  \<open>chatbot_db\<close>) and calls the hosted model (\<open>chatbot_client.generate_response\<close>).
  Both are outside the function and are parameters here, with their two outcomes: the
  call raises, or it returns. The calls made are recorded in order. The text of the
  system prompt has no bearing on which calls are made, so \<open>build_full_system_prompt\<close>
  is a parameter too (\<open>Inl\<close> with the exception's text when it raises).
\<close>

record chat_message =
  cm_role :: string
  cm_content :: string

record continue_chat_request =
  req_session_id :: string
  req_history :: "chat_message list"

datatype http_exception = HTTPException nat string

datatype 's store_outcome = Store_Raises string | Store_Returns "'s option"

datatype call = Session_Read string | Llm_Call

definition FALLBACK_MESSAGE :: string where
  "FALLBACK_MESSAGE = ''I'' @ [CHR 0x27] @ ''m sorry, something went wrong. Please try again.''"

definition continue_chat ::
  "(string \<Rightarrow> (string \<times> json) list store_outcome)
     \<Rightarrow> ((string \<times> json) list \<Rightarrow> string + string)
     \<Rightarrow> (string \<Rightarrow> chat_message list \<Rightarrow> string \<Rightarrow> string option)
     \<Rightarrow> continue_chat_request
     \<Rightarrow> (http_exception + string) \<times> call list"
where
  \<comment> \<open>The result is the \<open>HTTPException\<close> raised or the message of the response, with
      the calls made. \<open>not session\<close> holds for \<open>None\<close> and for an empty dictionary.
      An exception of \<open>build_full_system_prompt\<close> or of the store becomes status 500 in
      the outer \<open>except Exception\<close>; one of the model call becomes the fallback message.\<close>
  "continue_chat get_chat_session build_full_system_prompt generate_response request =
     (if req_history request = [] then
        (Inl (HTTPException 400 ''History cannot be empty''), [])
      else
        let last_message = last (req_history request) in
        if cm_role last_message \<noteq> ''user'' then
          (Inl (HTTPException 400 ''Last message in history must be from user''), [])
        else
          case get_chat_session (req_session_id request) of
            Store_Raises e \<Rightarrow>
              (Inl (HTTPException 500 (''Chat error: '' @ e)),
               [Session_Read (req_session_id request)])
          | Store_Returns found \<Rightarrow>
              (case found of
                 None \<Rightarrow>
                   (Inl (HTTPException 404
                      (''Chat session not found: '' @ req_session_id request)),
                    [Session_Read (req_session_id request)])
               | Some session \<Rightarrow>
                   if session = [] then
                     (Inl (HTTPException 404
                        (''Chat session not found: '' @ req_session_id request)),
                      [Session_Read (req_session_id request)])
                   else
                     (case build_full_system_prompt session of
                        Inl e \<Rightarrow>
                          (Inl (HTTPException 500 (''Chat error: '' @ e)),
                           [Session_Read (req_session_id request)])
                      | Inr full_system_prompt \<Rightarrow>
                          let conversation_history = butlast (req_history request) in
                          (case generate_response (cm_content last_message)
                                  conversation_history full_system_prompt of
                             None \<Rightarrow>
                               (Inr FALLBACK_MESSAGE,
                                [Session_Read (req_session_id request), Llm_Call])
                           | Some response_msg \<Rightarrow>
                               (Inr response_msg,
                                [Session_Read (req_session_id request), Llm_Call])))))"

section \<open>Facts about the string primitives\<close>

lemma substr_in_sublist: "substr_in a b = sublist a b"
  by (induction b) (simp_all add: sublist_Cons_right)

lemma sublist_filter: "sublist a b \<Longrightarrow> sublist (filter P a) (filter P b)"
  unfolding sublist_def by (metis filter_append)

lemma sublist_remove_spaces:
  "sublist a b \<Longrightarrow> sublist (remove_spaces a) (remove_spaces b)"
  unfolding remove_spaces_def by (rule sublist_filter)

lemma sublist_trans: "sublist a b \<Longrightarrow> sublist b c \<Longrightarrow> sublist a c"
  unfolding sublist_def by (metis append.assoc)

lemma of_char_space: "(of_char ch = (32::nat)) = (ch = CHR '' '')"
proof -
  have "of_char CHR '' '' = (32::nat)" by simp
  then show ?thesis by (metis of_char_eq_iff)
qed

lemma lower_char_idem: "lower_char (lower_char ch) = lower_char ch"
proof -
  have "of_char ch < (256::nat)" by simp
  then show ?thesis
    unfolding lower_char_def Let_def by (simp add: mod_if)
qed

lemma lower_char_eq_space: "(lower_char ch = CHR '' '') = (ch = CHR '' '')"
proof -
  have "of_char ch < (256::nat)" by simp
  then show ?thesis
    unfolding lower_char_def Let_def of_char_space [symmetric]
    by (simp add: mod_if)
qed

lemma is_space_space: "is_space CHR '' ''"
  by (simp add: is_space_def)

subsection \<open>Whitespace at the ends\<close>

lemma sublist_drop_ws_left:
  assumes "\<forall>ch\<in>set p. is_space ch" "c \<noteq> []" "\<not> is_space (hd c)"
    and "sublist c (p @ r)"
  shows "sublist c r"
  using assms
proof (induction p)
  case Nil
  then show ?case by simp
next
  case (Cons x p)
  from Cons.prems(2,3) Cons.prems(1) have "\<not> prefix c (x # p @ r)"
    by (cases c) auto
  with Cons.prems(4) have "sublist c (p @ r)"
    by (simp add: sublist_Cons_right)
  with Cons show ?case by simp
qed

lemma sublist_drop_ws_right:
  assumes "\<forall>ch\<in>set s. is_space ch" "c \<noteq> []" "\<not> is_space (last c)"
    and "sublist c (r @ s)"
  shows "sublist c r"
proof -
  have "sublist (rev c) (rev s @ rev r)"
    using assms(4) by (metis rev_append sublist_rev)
  moreover have "\<not> is_space (hd (rev c))"
    using assms(2,3) by (simp add: hd_rev)
  ultimately have "sublist (rev c) (rev r)"
    using assms(1,2) sublist_drop_ws_left [of "rev s" "rev c" "rev r"] by simp
  then show ?thesis by simp
qed

lemma strip_decomp:
  "\<exists>p s. x = p @ strip x @ s \<and> (\<forall>ch\<in>set p. is_space ch) \<and> (\<forall>ch\<in>set s. is_space ch)"
proof -
  let ?z = "dropWhile is_space x"
  let ?p = "takeWhile is_space x"
  let ?s = "rev (takeWhile is_space (rev ?z))"
  have "rev ?z = takeWhile is_space (rev ?z) @ dropWhile is_space (rev ?z)"
    by simp
  then have "?z = strip x @ ?s"
    unfolding strip_def by (metis rev_append rev_rev_ident)
  then have "x = ?p @ strip x @ ?s"
    by (metis takeWhile_dropWhile_id)
  moreover have "\<forall>ch\<in>set ?p. is_space ch"
    by (auto dest: set_takeWhileD)
  moreover have "\<forall>ch\<in>set ?s. is_space ch"
    by (auto dest: set_takeWhileD)
  ultimately show ?thesis by blast
qed

lemma strip_sublist: "sublist (strip x) x"
  using strip_decomp [of x] by (metis sublist_appendI)

lemma sublist_strip:
  assumes "c \<noteq> []" "\<not> is_space (hd c)" "\<not> is_space (last c)" "sublist c x"
  shows "sublist c (strip x)"
proof -
  obtain p s where x: "x = p @ strip x @ s"
    and p: "\<forall>ch\<in>set p. is_space ch" and s: "\<forall>ch\<in>set s. is_space ch"
    using strip_decomp by blast
  have "sublist c (p @ strip x @ s)" using assms(4) x by simp
  then have "sublist c (strip x @ s)"
    using sublist_drop_ws_left [OF p assms(1,2)] by blast
  then show ?thesis
    using sublist_drop_ws_right [OF s assms(1,3)] by blast
qed

lemma strip_id:
  assumes "c = [] \<or> (\<not> is_space (hd c) \<and> \<not> is_space (last c))"
  shows "strip c = c"
proof (cases "c = []")
  case True
  then show ?thesis by (simp add: strip_def)
next
  case False
  with assms have h: "\<not> is_space (hd c)" and l: "\<not> is_space (last c)" by auto
  have "dropWhile is_space c = c"
    using False h by (cases c) auto
  moreover have "dropWhile is_space (rev c) = rev c"
    using False l by (cases "rev c") (auto simp: last_rev hd_rev [symmetric])
  ultimately show ?thesis by (simp add: strip_def)
qed


subsection \<open>Splitting on whitespace and joining with one space\<close>

lemma split_ws_Nil: "split_ws [] = []"
  by (simp add: split_ws.simps)

lemma split_ws_space: "split_ws (CHR '' '' # rest) = split_ws rest"
proof -
  have "split_ws (CHR '' '' # rest) =
     (case dropWhile is_space rest of
        [] \<Rightarrow> []
      | c # cs \<Rightarrow> takeWhile (\<lambda>x. \<not> is_space x) (c # cs)
                 # split_ws (dropWhile (\<lambda>x. \<not> is_space x) (c # cs)))"
    by (subst split_ws.simps) (simp add: is_space_space)
  also have "\<dots> = split_ws rest"
    by (rule split_ws.simps [symmetric])
  finally show ?thesis .
qed

lemma split_ws_nonspace:
  assumes "xs \<noteq> []" "\<not> is_space (hd xs)"
  shows "split_ws xs = takeWhile (\<lambda>x. \<not> is_space x) xs
                        # split_ws (dropWhile (\<lambda>x. \<not> is_space x) xs)"
proof -
  obtain c cs where xs: "xs = c # cs" using assms(1) by (cases xs) auto
  have "dropWhile is_space xs = c # cs" using assms(2) xs by simp
  then show ?thesis
    unfolding xs by (subst split_ws.simps) (simp only: list.case)
qed

lemma split_ws_word:
  assumes "w \<noteq> []" "\<forall>ch\<in>set w. \<not> is_space ch" "rest = [] \<or> is_space (hd rest)"
  shows "split_ws (w @ rest) = w # split_ws rest"
proof -
  have "takeWhile (\<lambda>x. \<not> is_space x) rest = []"
    using assms(3) by (cases rest) auto
  then have t: "takeWhile (\<lambda>x. \<not> is_space x) (w @ rest) = w"
    using assms(2) by simp
  have "dropWhile (\<lambda>x. \<not> is_space x) rest = rest"
    using assms(3) by (cases rest) auto
  then have r: "dropWhile (\<lambda>x. \<not> is_space x) (w @ rest) = rest"
    using assms(2) by simp
  have "w @ rest \<noteq> []" "\<not> is_space (hd (w @ rest))"
    using assms(1,2) by (cases w; simp)+
  then have "split_ws (w @ rest) = takeWhile (\<lambda>x. \<not> is_space x) (w @ rest)
                        # split_ws (dropWhile (\<lambda>x. \<not> is_space x) (w @ rest))"
    by (rule split_ws_nonspace)
  then show ?thesis by (simp only: t r)
qed

lemma split_ws_words:
  "w \<in> set (split_ws s) \<Longrightarrow> w \<noteq> [] \<and> (\<forall>ch\<in>set w. \<not> is_space ch) \<and> set w \<subseteq> set s"
proof (induction s rule: split_ws.induct)
  case (1 s)
  note unfold = split_ws.simps [of s]
  show ?case
  proof (cases "dropWhile is_space s")
    case Nil
    have "split_ws s = []" by (simp only: unfold Nil list.case)
    with "1.prems" show ?thesis by simp
  next
    case (Cons c cs)
    have nc: "\<not> is_space c"
      using Cons by (metis hd_dropWhile list.distinct(1) list.sel(1))
    define word where "word = takeWhile (\<lambda>x. \<not> is_space x) (c # cs)"
    define rest where "rest = dropWhile (\<lambda>x. \<not> is_space x) (c # cs)"
    have sub: "set (c # cs) \<subseteq> set s"
      using Cons by (metis set_dropWhileD subsetI)
    have "split_ws s = word # split_ws rest"
      unfolding word_def rest_def by (simp only: unfold Cons list.case)
    with "1.prems" have "w = word \<or> w \<in> set (split_ws rest)" by simp
    then show ?thesis
    proof
      assume e: "w = word"
      have "word \<noteq> []" using nc by (simp add: word_def)
      moreover have "\<forall>ch\<in>set word. \<not> is_space ch"
        unfolding word_def by (metis set_takeWhileD)
      moreover have "set word \<subseteq> set (c # cs)"
        unfolding word_def by (metis set_takeWhileD subsetI)
      ultimately show ?thesis unfolding e using sub by blast
    next
      assume "w \<in> set (split_ws rest)"
      then have "w \<noteq> [] \<and> (\<forall>ch\<in>set w. \<not> is_space ch) \<and> set w \<subseteq> set rest"
        unfolding rest_def by (rule "1.IH" [OF Cons])
      moreover have "set rest \<subseteq> set (c # cs)"
        unfolding rest_def by (metis set_dropWhileD subsetI)
      ultimately show ?thesis using sub by blast
    qed
  qed
qed


lemma join_space_props:
  assumes "\<forall>w\<in>set ws. w \<noteq> [] \<and> (\<forall>ch\<in>set w. \<not> is_space ch)"
  shows "split_ws (join '' '' ws) = ws
       \<and> (ws \<noteq> [] \<longrightarrow> join '' '' ws \<noteq> [] \<and> \<not> is_space (hd (join '' '' ws))
                        \<and> \<not> is_space (last (join '' '' ws)))
       \<and> set (join '' '' ws) \<subseteq> insert CHR '' '' (\<Union> (set ` set ws))"
  using assms
proof (induction "'' ''" ws rule: join.induct)
  case 1
  show ?case by (simp add: split_ws_Nil)
next
  case (2 x)
  then have x: "x \<noteq> []" "\<forall>ch\<in>set x. \<not> is_space ch" by auto
  then have "split_ws (x @ []) = x # split_ws []"
    by (intro split_ws_word) auto
  then have "split_ws (join '' '' [x]) = [x]"
    by (simp add: split_ws_Nil)
  moreover have "\<not> is_space (hd x)" "\<not> is_space (last x)"
    using x by auto
  ultimately show ?case using x by auto
next
  case (3 x y ys)
  define rest where "rest = join '' '' (y # ys)"
  have x: "x \<noteq> []" "\<forall>ch\<in>set x. \<not> is_space ch" using "3.prems" by auto
  have "\<forall>w\<in>set (y # ys). w \<noteq> [] \<and> (\<forall>ch\<in>set w. \<not> is_space ch)"
    using "3.prems" by simp
  from "3.hyps" [OF this]
  have ih: "split_ws rest = y # ys" "rest \<noteq> []" "\<not> is_space (last rest)"
    "set rest \<subseteq> insert CHR '' '' (\<Union> (set ` set (y # ys)))"
    unfolding rest_def by blast+
  have j: "join '' '' (x # y # ys) = x @ CHR '' '' # rest"
    by (simp add: rest_def)
  have "split_ws (x @ CHR '' '' # rest) = x # split_ws (CHR '' '' # rest)"
    using x by (intro split_ws_word) (auto simp: is_space_space)
  then have a: "split_ws (join '' '' (x # y # ys)) = x # y # ys"
    by (simp only: j split_ws_space ih(1))
  have b: "\<not> is_space (hd (join '' '' (x # y # ys)))"
    unfolding j using x by (cases x) auto
  have c: "\<not> is_space (last (join '' '' (x # y # ys)))"
    unfolding j using ih(2,3) by simp
  have d: "set (join '' '' (x # y # ys)) \<subseteq> insert CHR '' '' (\<Union> (set ` set (x # y # ys)))"
    unfolding j using ih(4) by auto
  have e: "join '' '' (x # y # ys) \<noteq> []"
    unfolding j by simp
  from a b c d e show ?case by blast
qed


subsection \<open>The normalized complaint\<close>

lemma complaint_normalize_props:
  assumes "c = complaint_normalize c0"
  shows "(\<forall>ch\<in>set c. lower_char ch = ch)"
    and "(\<forall>ch\<in>set c. is_space ch \<longrightarrow> ch = CHR '' '')"
    and "c \<noteq> [] \<longrightarrow> \<not> is_space (hd c) \<and> \<not> is_space (last c)"
    and "complaint_normalize c = c"
proof -
  define ws where "ws = split_ws (strip (lower c0))"
  have c: "c = join '' '' ws"
    using assms by (simp add: complaint_normalize_def ws_def)
  have words: "\<forall>w\<in>set ws. w \<noteq> [] \<and> (\<forall>ch\<in>set w. \<not> is_space ch)"
    unfolding ws_def using split_ws_words by blast
  note jp = join_space_props [OF words, folded c]
  have chars: "set c \<subseteq> insert CHR '' '' (\<Union> (set ` set ws))"
    using jp by blast
  have low: "\<forall>w\<in>set ws. set w \<subseteq> lower_char ` set c0"
  proof
    fix w assume "w \<in> set ws"
    then have "set w \<subseteq> set (strip (lower c0))"
      unfolding ws_def using split_ws_words by blast
    also have "\<dots> \<subseteq> set (lower c0)"
      by (rule set_mono_sublist [OF strip_sublist])
    finally show "set w \<subseteq> lower_char ` set c0" by (simp add: lower_def)
  qed
  show n1: "\<forall>ch\<in>set c. lower_char ch = ch"
  proof
    fix ch assume "ch \<in> set c"
    then consider "ch = CHR '' ''" | w where "w \<in> set ws" "ch \<in> set w"
      using chars by auto
    then show "lower_char ch = ch"
    proof cases
      case 1
      then show ?thesis using lower_char_eq_space by blast
    next
      case 2
      then obtain d where "ch = lower_char d" using low by blast
      then show ?thesis by (simp add: lower_char_idem)
    qed
  qed
  show n4: "\<forall>ch\<in>set c. is_space ch \<longrightarrow> ch = CHR '' ''"
    using chars words by blast
  show n2: "c \<noteq> [] \<longrightarrow> \<not> is_space (hd c) \<and> \<not> is_space (last c)"
    using jp c by (cases ws) auto
  have "lower c = c"
    unfolding lower_def using n1 by (simp add: map_idI)
  moreover have "strip c = c"
    using n2 by (intro strip_id) blast
  moreover have "split_ws c = ws"
    using jp by blast
  ultimately show "complaint_normalize c = c"
    by (simp add: complaint_normalize_def c [symmetric])
qed


lemma remove_spaces_lower: "remove_spaces (lower s) = lower (remove_spaces s)"
  unfolding remove_spaces_def lower_def
  by (induction s) (simp_all add: lower_char_eq_space)

lemma lower_fixed: "\<forall>ch\<in>set s. lower_char ch = ch \<Longrightarrow> lower s = s"
  unfolding lower_def by (simp add: map_idI)

lemma set_remove_spaces: "set (remove_spaces s) = set s - {CHR '' ''}"
  unfolding remove_spaces_def by auto

lemma remove_spaces_append:
  "remove_spaces (a @ b) = remove_spaces a @ remove_spaces b"
  unfolding remove_spaces_def by simp

lemma remove_spaces_ends:
  assumes "c \<noteq> []" "\<not> is_space (hd c)" "\<not> is_space (last c)"
    and "\<forall>ch\<in>set c. is_space ch \<longrightarrow> ch = CHR '' ''"
  shows "remove_spaces c \<noteq> []"
    and "\<not> is_space (hd (remove_spaces c))"
    and "\<not> is_space (last (remove_spaces c))"
proof -
  have "hd c \<in> set c" using assms(1) by simp
  moreover have "hd c \<noteq> CHR '' ''" using assms(2) is_space_space by auto
  ultimately have "hd c \<in> set (remove_spaces c)" by (simp add: set_remove_spaces)
  then show ne: "remove_spaces c \<noteq> []" by auto
  have all: "\<forall>ch\<in>set (remove_spaces c). \<not> is_space ch"
    using assms(4) by (auto simp: set_remove_spaces)
  show "\<not> is_space (hd (remove_spaces c))"
    using ne all by (meson hd_in_set)
  show "\<not> is_space (last (remove_spaces c))"
    using ne all by (meson last_in_set)
qed

lemma pass_from_raw:
  assumes n1: "\<forall>ch\<in>set c. lower_char ch = ch"
    and n4: "\<forall>ch\<in>set c. is_space ch \<longrightarrow> ch = CHR '' ''"
    and n2: "c \<noteq> [] \<longrightarrow> \<not> is_space (hd c) \<and> \<not> is_space (last c)"
    and cond: "k = c \<or> sublist k c \<or> sublist c k
             \<or> sublist (remove_spaces k) (remove_spaces c)
             \<or> sublist (remove_spaces c) (remove_spaces k)"
  shows "strip (lower k) = c \<or> sublist (strip (lower k)) c \<or> sublist c (strip (lower k))
       \<or> sublist (remove_spaces (strip (lower k))) (remove_spaces c)
       \<or> sublist (remove_spaces c) (remove_spaces (strip (lower k)))"
proof (cases "c = []")
  case True
  then show ?thesis by simp
next
  case False
  with n2 have h: "\<not> is_space (hd c)" and l: "\<not> is_space (last c)" by auto
  have lc: "lower c = c" using n1 by (rule lower_fixed)
  from cond consider
      (a) "k = c" | (b) "sublist k c" | (c) "sublist c k"
    | (d) "sublist (remove_spaces k) (remove_spaces c)"
    | (e) "sublist (remove_spaces c) (remove_spaces k)" by blast
  then show ?thesis
  proof cases
    case a
    have "strip (lower k) = c" using a lc h l by (simp add: strip_id)
    then show ?thesis by blast
  next
    case b
    have "set k \<subseteq> set c" using b by (rule set_mono_sublist)
    then have "lower k = k" using n1 by (intro lower_fixed) blast
    then have "sublist (strip (lower k)) k" by (simp add: strip_sublist)
    then have "sublist (strip (lower k)) c" using b by (rule sublist_trans)
    then show ?thesis by blast
  next
    case c
    have "sublist (lower c) (lower k)"
      unfolding lower_def using c by (rule map_mono_sublist)
    then have "sublist c (lower k)" by (simp only: lc)
    then have "sublist c (strip (lower k))"
      using False h l by (intro sublist_strip)
    then show ?thesis by blast
  next
    case d
    have "set (remove_spaces k) \<subseteq> set c"
      using set_mono_sublist [OF d] by (auto simp: set_remove_spaces)
    then have "lower (remove_spaces k) = remove_spaces k"
      using n1 by (intro lower_fixed) blast
    then have "remove_spaces (lower k) = remove_spaces k"
      by (simp add: remove_spaces_lower)
    moreover have "sublist (remove_spaces (strip (lower k))) (remove_spaces (lower k))"
      by (intro sublist_remove_spaces strip_sublist)
    ultimately have "sublist (remove_spaces (strip (lower k))) (remove_spaces k)" by simp
    then have "sublist (remove_spaces (strip (lower k))) (remove_spaces c)"
      using d by (rule sublist_trans)
    then show ?thesis by blast
  next
    case e
    let ?cn = "remove_spaces c"
    have ends: "?cn \<noteq> []" "\<not> is_space (hd ?cn)" "\<not> is_space (last ?cn)"
      using remove_spaces_ends [OF False h l n4] by blast+
    have "lower ?cn = ?cn"
      using n1 by (intro lower_fixed) (auto simp: set_remove_spaces)
    moreover have "sublist (lower ?cn) (lower (remove_spaces k))"
      unfolding lower_def using e by (rule map_mono_sublist)
    ultimately have sub: "sublist ?cn (remove_spaces (lower k))"
      by (simp add: remove_spaces_lower)
    obtain p s where x: "lower k = p @ strip (lower k) @ s"
      and p: "\<forall>ch\<in>set p. is_space ch" and s: "\<forall>ch\<in>set s. is_space ch"
      using strip_decomp by blast
    have p': "\<forall>ch\<in>set (remove_spaces p). is_space ch"
      using p by (simp add: set_remove_spaces)
    have s': "\<forall>ch\<in>set (remove_spaces s). is_space ch"
      using s by (simp add: set_remove_spaces)
    have "remove_spaces (lower k)
        = remove_spaces p @ remove_spaces (strip (lower k)) @ remove_spaces s"
      by (subst x) (simp only: remove_spaces_append)
    with sub have "sublist ?cn
        (remove_spaces p @ remove_spaces (strip (lower k)) @ remove_spaces s)" by simp
    then have "sublist ?cn (remove_spaces (strip (lower k)) @ remove_spaces s)"
      using sublist_drop_ws_left [OF p' ends(1,2)] by blast
    then have "sublist ?cn (remove_spaces (strip (lower k)))"
      using sublist_drop_ws_right [OF s' ends(1,3)] by blast
    then show ?thesis by blast
  qed
qed

lemma keyword_loop_hit:
  assumes "k \<in> set ks"
    and "strip (lower k) = c \<or> sublist (strip (lower k)) c \<or> sublist c (strip (lower k))
       \<or> sublist (remove_spaces (strip (lower k))) (remove_spaces c)
       \<or> sublist (remove_spaces c) (remove_spaces (strip (lower k)))"
  shows "keyword_loop c ks"
  using assms
  by (induction ks) (auto simp: Let_def substr_in_sublist)

lemma symptom_loop_hit:
  assumes "(name, data) \<in> set tbl" "keyword_loop c (get_or (sr_keywords data) [])"
  shows "name \<in> set (symptom_loop c tbl)"
  using assms
  by (induction c tbl rule: symptom_loop.induct) auto

section \<open>The matcher finds every keyword that fits\<close>

text \<open>
  Claim C2, amended. Let \<open>c\<close> be a normalized complaint that is not empty, and \<open>k\<close> a
  keyword (as written in the table) of a symptom of the rule table. If \<open>k\<close> equals
  \<open>c\<close>, or one is a substring of the other, or one is a substring of the other once the
  spaces are removed from both, then the symptom's identifier is in
  \<open>match_symptoms(c)\<close>. The empty complaint is excluded: the guard
  \<open>if not complaint: return []\<close> answers it with no match at all.
\<close>

theorem match_symptoms_complete:
  assumes "c = complaint_normalize c0" and "c \<noteq> []"
    and "(symptom_name, symptom_data) \<in> set symptoms_data"
    and "k \<in> set (get_or (sr_keywords symptom_data) [])"
    and "k = c \<or> substr_in k c \<or> substr_in c k
       \<or> substr_in (remove_spaces k) (remove_spaces c)
       \<or> substr_in (remove_spaces c) (remove_spaces k)"
  shows "symptom_name \<in> set (match_symptoms (Some c) symptoms_data)"
proof -
  note np = complaint_normalize_props [OF assms(1)]
  have "strip (lower k) = c \<or> sublist (strip (lower k)) c \<or> sublist c (strip (lower k))
       \<or> sublist (remove_spaces (strip (lower k))) (remove_spaces c)
       \<or> sublist (remove_spaces c) (remove_spaces (strip (lower k)))"
    using assms(5) unfolding substr_in_sublist
    by (rule pass_from_raw [OF np(1) np(2) np(3)])
  then have "keyword_loop c (get_or (sr_keywords symptom_data) [])"
    using assms(4) by (intro keyword_loop_hit)
  then have "symptom_name \<in> set (symptom_loop c symptoms_data)"
    using assms(3) by (intro symptom_loop_hit)
  then show ?thesis
    using assms(2) by (simp add: np(4))
qed

theorem match_symptoms_complete_witness:
  "''head pain'' = complaint_normalize ''Head  Pain ''
   \<and> ''head pain'' \<noteq> []
   \<and> (''headache'', headache_rule) \<in> set [(''headache'', headache_rule)]
   \<and> ''headpain'' \<in> set (get_or (sr_keywords headache_rule) [])
   \<and> substr_in (remove_spaces ''headpain'') (remove_spaces ''head pain'')
   \<and> ''headache'' \<in> set (match_symptoms (Some ''head pain'') [(''headache'', headache_rule)])"
proof -
  have h1: "''head pain'' = complaint_normalize ''Head  Pain ''" by code_simp
  have h2: "''head pain'' \<noteq> []" by simp
  have h3: "(''headache'', headache_rule) \<in> set [(''headache'', headache_rule)]" by simp
  have h4: "''headpain'' \<in> set (get_or (sr_keywords headache_rule) [])"
    by (simp add: headache_rule_def get_or_def)
  have h5: "substr_in (remove_spaces ''headpain'') (remove_spaces ''head pain'')"
    by (simp add: remove_spaces_def)
  have h5': "''headpain'' = ''head pain'' \<or> substr_in ''headpain'' ''head pain''
       \<or> substr_in ''head pain'' ''headpain''
       \<or> substr_in (remove_spaces ''headpain'') (remove_spaces ''head pain'')
       \<or> substr_in (remove_spaces ''head pain'') (remove_spaces ''headpain'')"
    using h5 by blast
  from match_symptoms_complete [OF h1 h2 h3 h4 h5'] h1 h2 h3 h4 h5
  show ?thesis by blast
qed

text \<open>
  Claim C2 as stated fails at the empty complaint: it is normalized, it is a substring of
  the keyword \<open>headpain\<close>, and the matcher returns no symptom.
\<close>

theorem match_symptoms_empty_complaint_counterexample:
  "complaint_normalize '''' = ''''
   \<and> ''headpain'' \<in> set (get_or (sr_keywords headache_rule) [])
   \<and> substr_in '''' ''headpain''
   \<and> ''headache'' \<notin> set (match_symptoms (Some '''') [(''headache'', headache_rule)])"
  by (simp add: complaint_normalize_def lower_def strip_def split_ws_Nil
      headache_rule_def get_or_def)

section \<open>The first three passes add nothing to the fourth\<close>

lemma keyword_loop_pass4_eq:
  "keyword_loop c ks = keyword_loop_pass4 c ks"
proof (induction ks)
  case Nil
  show ?case by simp
next
  case (Cons k ks)
  let ?kn = "strip (lower k)"
  have sub: "sublist ?kn c \<Longrightarrow> sublist (remove_spaces ?kn) (remove_spaces c)"
    and sup: "sublist c ?kn \<Longrightarrow> sublist (remove_spaces c) (remove_spaces ?kn)"
    by (rule sublist_remove_spaces, assumption)+
  show ?case
    using Cons.IH sub sup
    by (auto simp: Let_def substr_in_sublist)
qed

lemma symptom_loop_pass4_eq:
  "symptom_loop c tbl = symptom_loop_pass4 c tbl"
  by (induction c tbl rule: symptom_loop.induct) (simp_all add: keyword_loop_pass4_eq)

text \<open>
  Claim C9. For every complaint and every rule table, the four-pass matcher returns what
  the matcher with the fourth pass alone returns (the same identifiers in the same order,
  so the same set): a keyword that passes equality, keyword-in-complaint or
  complaint-in-keyword also passes the space-free containment test.
\<close>

theorem match_symptoms_pass4_only:
  "match_symptoms complaint symptoms_data = match_symptoms_pass4 complaint symptoms_data"
  by (cases complaint) (simp_all add: symptom_loop_pass4_eq)

section \<open>The aggregated guidance bundle\<close>

lemma map_of_dict_set: "map_of (dict_set d k v) = (map_of d)(k \<mapsto> v)"
  by (induction d k v rule: dict_set.induct) auto

lemma collect_urgency_lookup:
  "map_of (collect_urgency cu urgency) level =
     (if map snd (filter (\<lambda>(l, rule). l = level) urgency) = [] then map_of cu level
      else Some (get_or (map_of cu level) []
                 @ map snd (filter (\<lambda>(l, rule). l = level) urgency)))"
proof (induction cu urgency rule: collect_urgency.induct)
  case (1 cu)
  show ?case by simp
next
  case (2 cu l rule urgency)
  define cu' where "cu' =
    (case map_of cu l of
       None \<Rightarrow> dict_set cu l ([] @ [rule])
     | Some rules \<Rightarrow> dict_set cu l (rules @ [rule]))"
  have step: "collect_urgency cu ((l, rule) # urgency) = collect_urgency cu' urgency"
    by (simp add: cu'_def)
  have ih: "map_of (collect_urgency cu' urgency) level =
     (if map snd (filter (\<lambda>(l, rule). l = level) urgency) = [] then map_of cu' level
      else Some (get_or (map_of cu' level) []
                 @ map snd (filter (\<lambda>(l, rule). l = level) urgency)))"
    using 2 unfolding cu'_def .
  have look: "map_of cu' level =
     (if l = level then Some (get_or (map_of cu level) [] @ [rule]) else map_of cu level)"
    by (simp add: cu'_def map_of_dict_set get_or_def split: option.split)
  show ?case
    unfolding step ih look by (simp add: get_or_def)
qed

lemma supplied_rules_Nil: "supplied_rules [] sd level = []"
  by (simp add: supplied_rules_def)

lemma supplied_rules_Cons:
  "supplied_rules (name # matched) sd level =
     (case map_of sd name of
        None \<Rightarrow> []
      | Some data \<Rightarrow> map snd (filter (\<lambda>(l, rule). l = level) (get_or (sr_urgency_rules data) [])))
     @ supplied_rules matched sd level"
  by (simp add: supplied_rules_def)

lemma bundle_loop_combined:
  "map_of (combined (bundle_loop sd acc matched)) level =
     (if supplied_rules matched sd level = [] then map_of (combined acc) level
      else Some (get_or (map_of (combined acc) level) [] @ supplied_rules matched sd level))"
proof (induction sd acc matched rule: bundle_loop.induct)
  case (1 sd acc)
  show ?case by (simp add: supplied_rules_Nil)
next
  case (2 sd acc name matched)
  show ?case
  proof (cases "map_of sd name")
    case None
    then show ?thesis using 2(1) by (simp add: supplied_rules_Cons)
  next
    case (Some data)
    define acc' where "acc' =
       \<lparr>follow_ups = collect_questions (follow_ups acc)
                 (get_or (sr_follow_up_questions data) []),
        combined = collect_urgency (combined acc) (get_or (sr_urgency_rules data) []),
        all_hints = collect_text (all_hints acc) (get_or (sr_analysis_hints data) []),
        all_advice = collect_text (all_advice acc) (get_or (sr_suggested_advice data) [])\<rparr>"
    have step: "bundle_loop sd acc (name # matched) = bundle_loop sd acc' matched"
      by (simp add: Some acc'_def)
    have ih: "map_of (combined (bundle_loop sd acc' matched)) level =
       (if supplied_rules matched sd level = [] then map_of (combined acc') level
        else Some (get_or (map_of (combined acc') level) [] @ supplied_rules matched sd level))"
      using 2(2) [OF Some] unfolding acc'_def .
    have look: "map_of (combined acc') level =
       (if map snd (filter (\<lambda>(l, rule). l = level) (get_or (sr_urgency_rules data) [])) = []
        then map_of (combined acc) level
        else Some (get_or (map_of (combined acc) level) []
               @ map snd (filter (\<lambda>(l, rule). l = level) (get_or (sr_urgency_rules data) []))))"
      by (simp add: acc'_def collect_urgency_lookup)
    have sup: "supplied_rules (name # matched) sd level =
        map snd (filter (\<lambda>(l, rule). l = level) (get_or (sr_urgency_rules data) []))
        @ supplied_rules matched sd level"
      by (simp add: supplied_rules_Cons Some)
    show ?thesis
      unfolding step ih look sup by (simp add: get_or_def)
  qed
qed

lemma map_of_flatten:
  "map_of (map (\<lambda>(level, rules). (level, f rules)) cu) level = map_option f (map_of cu level)"
  by (induction cu) auto

lemma set_dict_set: "set (dict_set d k v) \<subseteq> insert (k, v) (set d)"
  by (induction d k v rule: dict_set.induct) auto

lemma collect_urgency_nonempty:
  "\<forall>p\<in>set cu. snd p \<noteq> [] \<Longrightarrow> \<forall>p\<in>set (collect_urgency cu urgency). snd p \<noteq> []"
proof (induction cu urgency rule: collect_urgency.induct)
  case (1 cu)
  then show ?case by simp
next
  case (2 cu l rule urgency)
  define cu' where "cu' =
    (case map_of cu l of
       None \<Rightarrow> dict_set cu l ([] @ [rule])
     | Some rules \<Rightarrow> dict_set cu l (rules @ [rule]))"
  have "\<forall>p\<in>set cu'. snd p \<noteq> []"
  proof (cases "map_of cu l")
    case None
    then show ?thesis
      using "2.prems" set_dict_set [of cu l "[rule]"] by (auto simp: cu'_def)
  next
    case (Some rules)
    then show ?thesis
      using "2.prems" set_dict_set [of cu l "rules @ [rule]"] by (auto simp: cu'_def)
  qed
  then have "\<forall>p\<in>set (collect_urgency cu' urgency). snd p \<noteq> []"
    unfolding cu'_def by (rule "2.IH")
  then show ?case by (simp add: cu'_def)
qed

lemma combined_nonempty:
  "\<forall>p\<in>set (combined acc). snd p \<noteq> [] \<Longrightarrow>
   \<forall>p\<in>set (combined (bundle_loop sd acc matched)). snd p \<noteq> []"
proof (induction sd acc matched rule: bundle_loop.induct)
  case (1 sd acc)
  then show ?case by simp
next
  case (2 sd acc name matched)
  show ?case
  proof (cases "map_of sd name")
    case None
    then show ?thesis using 2(1) [OF None "2.prems"] by simp
  next
    case (Some data)
    have "\<forall>p\<in>set (collect_urgency (combined acc) (get_or (sr_urgency_rules data) [])).
            snd p \<noteq> []"
      using "2.prems" by (rule collect_urgency_nonempty)
    then show ?thesis using 2(2) [OF Some] Some by simp
  qed
qed

text \<open>
  Claim C3. For every urgency level, the merged value of the bundle is decided by the rule
  texts the matched symptoms supply for that level, taken in matched-symptom order: with
  none the level is absent from \<open>urgency_rules\<close>, with exactly one the merged value is
  that text unmodified, and with two or more it is the texts joined by \<open>" OR "\<close>.
\<close>

theorem urgency_rules_merged:
  "map_of (gb_urgency_rules (build_guidance_bundle matched_symptoms guidance_data)) level =
     (case supplied_rules matched_symptoms (get_or (gd_symptoms guidance_data) []) level of
        [] \<Rightarrow> None
      | [rule] \<Rightarrow> Some rule
      | rule # rule' # rules \<Rightarrow> Some (join '' OR '' (rule # rule' # rules)))"
proof (cases "matched_symptoms = []")
  case True
  then show ?thesis
    by (simp add: build_guidance_bundle_def Let_def supplied_rules_def)
next
  case False
  then show ?thesis
    by (simp add: build_guidance_bundle_def Let_def map_of_flatten bundle_loop_combined
        get_or_def flatten_rules_def split: list.split)
qed

text \<open>
  Claim C8. Over an empty sequence of matched symptoms the bundle has empty
  \<open>follow_up_questions\<close>, \<open>urgency_rules\<close>, \<open>analysis_hints\<close> and
  \<open>suggested_advice\<close>, while \<open>emergency_keywords\<close> and \<open>disclaimer\<close> are the
  rule table's own (the list and the text it defines, or the empty default of
  \<open>dict.get\<close> when it defines none).
\<close>

theorem empty_matched_bundle:
  "gb_matched_symptoms (build_guidance_bundle [] guidance_data) = []
   \<and> gb_follow_up_questions (build_guidance_bundle [] guidance_data) = []
   \<and> gb_urgency_rules (build_guidance_bundle [] guidance_data) = []
   \<and> gb_analysis_hints (build_guidance_bundle [] guidance_data) = []
   \<and> gb_suggested_advice (build_guidance_bundle [] guidance_data) = []
   \<and> gb_emergency_keywords (build_guidance_bundle [] guidance_data)
       = get_or (gd_emergency_keywords guidance_data) []
   \<and> gb_disclaimer (build_guidance_bundle [] guidance_data)
       = get_or (gd_disclaimer guidance_data) []"
  by (simp add: build_guidance_bundle_def Let_def)

section \<open>Loading the rule table\<close>



section \<open>The prompt does not depend on the order of the urgency dictionary\<close>

text \<open>
  The composer reads \<open>urgency_rules\<close> by key only. Two bundles that agree on the
  fields the composer reads, with \<open>urgency_rules\<close> equal as dictionaries (the same
  value under every key, whatever the insertion order), give the same prompt text.
\<close>

lemma build_full_prompt_order_independent:
  assumes "gb_matched_symptoms guidance' = gb_matched_symptoms guidance"
    and "gb_follow_up_questions guidance' = gb_follow_up_questions guidance"
    and "map_of (gb_urgency_rules guidance') = map_of (gb_urgency_rules guidance)"
    and "gb_analysis_hints guidance' = gb_analysis_hints guidance"
    and "gb_suggested_advice guidance' = gb_suggested_advice guidance"
    and "gb_emergency_keywords guidance' = gb_emergency_keywords guidance"
  shows "build_full_prompt medical_schema guidance' user_message
       = build_full_prompt medical_schema guidance user_message"
  using assms
  by (simp add: build_full_prompt_def build_context_prompt_def Let_def)

section \<open>The report synthesizer\<close>




lemma fallback_report_raises:
  "(generate_fallback_report str_of uuid now e symptom_data = Inl err)
     = (extract_age_number (patient_age e) = Inl err)"
  by (simp add: generate_fallback_report_def Let_def split: sum.split)

lemma complete_report_raises:
  "(complete_report uuid now e symptom_data r = Inl err)
     = (extract_age_number (patient_age e) = Inl err)"
  by (simp add: complete_report_def Let_def split: sum.split)

lemma report_cases:
  "generate_medical_report api_key outcome str_of uuid now responses symptom_data =
     (case extract_loop
             \<lparr>chief_complaint = JNull, patient_name = JNull, patient_age = JNull,
              patient_gender = JNull\<rparr> responses of
        Inl err \<Rightarrow> Inl err
      | Inr e \<Rightarrow>
          (case context_error symptom_data of
             Some err \<Rightarrow> Inl err
           | None \<Rightarrow>
               (case extract_age_number (patient_age e) of
                  Inl err \<Rightarrow> Inl err
                | Inr age_number \<Rightarrow>
                    (case model_report api_key outcome of
                       None \<Rightarrow> generate_fallback_report str_of uuid now e symptom_data
                     | Some report \<Rightarrow> complete_report uuid now e symptom_data report))))"
proof (cases "extract_loop
             \<lparr>chief_complaint = JNull, patient_name = JNull, patient_age = JNull,
              patient_gender = JNull\<rparr> responses")
  case (Inl err)
  then show ?thesis by (simp add: generate_medical_report_def)
next
  case ex: (Inr e)
  show ?thesis
  proof (cases "context_error symptom_data")
    case (Some err)
    then show ?thesis by (simp add: generate_medical_report_def ex)
  next
    case ctx: None
    show ?thesis
    proof (cases "extract_age_number (patient_age e)")
      case (Inl err)
      then have f: "generate_fallback_report str_of uuid now e symptom_data = Inl err"
        by (simp add: fallback_report_raises)
      have c: "\<And>r. complete_report uuid now e symptom_data r = Inl err"
        using Inl by (simp add: complete_report_raises)
      show ?thesis
        by (simp add: generate_medical_report_def ex ctx Inl f c Let_def
            split: post_outcome.split reply_content.split json.split)
    next
      case num: (Inr n)
      have c: "\<And>r. \<exists>completed. complete_report uuid now e symptom_data r = Inr completed"
        using num by (simp add: complete_report_def Let_def)
      have "generate_medical_report api_key outcome str_of uuid now responses symptom_data =
          (case model_report api_key outcome of
             None \<Rightarrow> generate_fallback_report str_of uuid now e symptom_data
           | Some r \<Rightarrow> complete_report uuid now e symptom_data r)"
      proof (cases "model_report api_key outcome")
        case None
        then show ?thesis
          by (auto simp: generate_medical_report_def ex ctx model_report_def Let_def
              split: if_splits post_outcome.splits reply_content.splits json.splits)
      next
        case (Some r)
        obtain completed where cr: "complete_report uuid now e symptom_data r = Inr completed"
          using c by blast
        from Some show ?thesis
          by (auto simp: generate_medical_report_def ex ctx model_report_def Let_def cr
              split: if_splits post_outcome.splits reply_content.splits json.splits)
      qed
      then show ?thesis
        by (simp add: ex ctx num)
    qed
  qed
qed



text \<open>
  Three inputs on which the source raises: symptom data whose \<open>triage_rationale\<close> is a
  string, an age answer that is a number, and a question that is \<open>null\<close>.
\<close>

lemma raising_inputs:
  "generate_medical_report (Some ''key'') Raises str_of uuid now []
      (Some [(''triage_rationale'', JStr ''x'')]) = Inl AttributeError"
  "generate_medical_report None outcome str_of uuid now
      [JObj [(''question'', JStr ''age''), (''answer'', JInt 30)]] None = Inl TypeError"
  "generate_medical_report None outcome str_of uuid now
      [JObj [(''question'', JNull), (''answer'', JStr ''x'')]] None = Inl AttributeError"
proof -
  show "generate_medical_report (Some ''key'') Raises str_of uuid now []
      (Some [(''triage_rationale'', JStr ''x'')]) = Inl AttributeError"
    by (simp add: generate_medical_report_def context_error_def)
  have l: "lower ''age'' = ''age''" by code_simp
  show "generate_medical_report None outcome str_of uuid now
      [JObj [(''question'', JStr ''age''), (''answer'', JInt 30)]] None = Inl TypeError"
    by (simp add: report_cases get_or_def l context_error_def extract_age_number_def)
  show "generate_medical_report None outcome str_of uuid now
      [JObj [(''question'', JNull), (''answer'', JStr ''x'')]] None = Inl AttributeError"
    by (simp add: generate_medical_report_def get_or_def)
qed




section \<open>The guidance reply is one of three kinds\<close>

text \<open>
  Claim C10. For every schema, bundle, user message and every outcome of the model call,
  the \<open>type\<close> field of what \<open>get_llm_response\<close> returns is \<open>question\<close>,
  \<open>analysis\<close> or \<open>decision\<close>; and unless the call produced a dictionary whose
  \<open>type\<close> is one of the three, the result is the fallback question.
\<close>

theorem get_llm_response_type:
  "map_of (get_llm_response api_key post medical_schema guidance user_message) ''type''
     \<in> {Some (JStr ''question''), Some (JStr ''analysis''), Some (JStr ''decision'')}
   \<and> ((\<forall>d. call_cerebras_llm api_key post
              (build_full_prompt medical_schema guidance user_message) = JObj d
            \<longrightarrow> map_of d ''type''
                 \<notin> {Some (JStr ''question''), Some (JStr ''analysis''), Some (JStr ''decision'')})
        \<longrightarrow> get_llm_response api_key post medical_schema guidance user_message
            = fallback_response)"
proof -
  define v where "v = call_cerebras_llm api_key post
      (build_full_prompt medical_schema guidance user_message)"
  have fb: "map_of fallback_response ''type'' = Some (JStr ''question'')"
    by (simp add: fallback_response_def)
  have r: "get_llm_response api_key post medical_schema guidance user_message =
     (case v of
        JObj d \<Rightarrow>
          if truthy v \<and> get_or (map_of d ''type'') JNull
                \<in> set [JStr ''question'', JStr ''analysis'', JStr ''decision'']
          then d else fallback_response
      | _ \<Rightarrow> fallback_response)"
    unfolding v_def by (simp add: get_llm_response_def Let_def)
  show ?thesis
  proof (cases v)
    case (JObj d)
    show ?thesis
    proof (cases "d \<noteq> [] \<and> get_or (map_of d ''type'') JNull
                \<in> set [JStr ''question'', JStr ''analysis'', JStr ''decision'']")
      case True
      then have t: "map_of d ''type''
          \<in> {Some (JStr ''question''), Some (JStr ''analysis''), Some (JStr ''decision'')}"
        by (auto simp: get_or_def split: option.splits)
      have "get_llm_response api_key post medical_schema guidance user_message = d"
        using True by (simp add: r JObj)
      then show ?thesis using t JObj unfolding v_def by auto
    next
      case False
      then have "get_llm_response api_key post medical_schema guidance user_message
          = fallback_response"
        by (auto simp: r JObj)
      then show ?thesis by (simp add: fb)
    qed
  qed (simp_all add: r fb)
qed

theorem get_llm_response_type_witness:
  "get_llm_response (Some ''key'') diagnosis_reply example_schema example_bundle ''hello''
     = fallback_response"
proof -
  have c: "call_cerebras_llm (Some ''key'') diagnosis_reply
      (build_full_prompt example_schema example_bundle ''hello'')
      = JObj [(''type'', JStr ''diagnosis'')]"
    by (simp add: call_cerebras_llm_def diagnosis_reply_def has_key_def)
  have "\<forall>d. call_cerebras_llm (Some ''key'') diagnosis_reply
              (build_full_prompt example_schema example_bundle ''hello'') = JObj d
            \<longrightarrow> map_of d ''type''
                 \<notin> {Some (JStr ''question''), Some (JStr ''analysis''), Some (JStr ''decision'')}"
    unfolding c by simp
  then show ?thesis
    using get_llm_response_type
      [of "Some ''key''" diagnosis_reply example_schema example_bundle "''hello''"]
    by blast
qed

section \<open>Parsing the medical history\<close>

text \<open>
  Claim C4 (the code departs from it). The separator for the word "and" is the bare
  string \<open>and\<close>, so a history with those letters inside a word is cut there, and the
  token filter leaves \<open>n/a\<close> out of its negations, so an \<open>n/a\<close> token is kept. Where
  neither happens the code does what the claim says, as on \<open>asthma, diabetes\<close>.
\<close>

theorem parse_medical_history_splits_inside_words:
  "parse_medical_history (Some ''hand eczema'') = [''h'', ''eczema'']
   \<and> parse_medical_history (Some ''asthma, n/a'') = [''asthma'', ''n/a'']
   \<and> parse_medical_history (Some ''asthma, diabetes'') = [''asthma'', ''diabetes'']"
  by code_simp

section \<open>Validation of a continue-chat request\<close>

text \<open>
  Claim C7. A request whose history is empty, or whose last message is not from the
  user, is rejected with status 400 and no call at all: the session store is not read and
  the model is not called. A request with a valid history whose session id the store
  does not know is answered with status 404, and the model is not called.
\<close>

theorem continue_chat_validation:
  "(req_history request = [] \<or> cm_role (last (req_history request)) \<noteq> ''user'' \<longrightarrow>
      (\<exists>detail. continue_chat get_chat_session build_full_system_prompt generate_response
          request = (Inl (HTTPException 400 detail), [])))
   \<and> (req_history request \<noteq> [] \<and> cm_role (last (req_history request)) = ''user''
        \<and> get_chat_session (req_session_id request) = Store_Returns None \<longrightarrow>
      (\<exists>detail. fst (continue_chat get_chat_session build_full_system_prompt
          generate_response request) = Inl (HTTPException 404 detail))
      \<and> Llm_Call \<notin> set (snd (continue_chat get_chat_session build_full_system_prompt
          generate_response request)))"
  by (simp add: continue_chat_def Let_def)

theorem continue_chat_validation_witness:
  "(\<exists>detail. continue_chat (\<lambda>sid. Store_Returns None) (\<lambda>session. Inr ''prompt'')
        (\<lambda>msg history prompt. Some ''reply'')
        \<lparr>req_session_id = ''s1'',
         req_history = [\<lparr>cm_role = ''assistant'', cm_content = ''hello''\<rparr>]\<rparr>
      = (Inl (HTTPException 400 detail), []))
   \<and> (\<exists>detail. fst (continue_chat (\<lambda>sid. Store_Returns None) (\<lambda>session. Inr ''prompt'')
        (\<lambda>msg history prompt. Some ''reply'')
        \<lparr>req_session_id = ''s1'',
         req_history = [\<lparr>cm_role = ''user'', cm_content = ''hello''\<rparr>]\<rparr>)
      = Inl (HTTPException 404 detail))
   \<and> Llm_Call \<notin> set (snd (continue_chat (\<lambda>sid. Store_Returns None)
        (\<lambda>session. Inr ''prompt'') (\<lambda>msg history prompt. Some ''reply'')
        \<lparr>req_session_id = ''s1'',
         req_history = [\<lparr>cm_role = ''user'', cm_content = ''hello''\<rparr>]\<rparr>))"
proof -
  let ?db = "\<lambda>sid::string. (Store_Returns None :: (string \<times> json) list store_outcome)"
  let ?bp = "\<lambda>session::(string \<times> json) list. (Inr ''prompt'' :: string + string)"
  let ?gen = "\<lambda>(msg::string) (history::chat_message list) (prompt::string). Some ''reply''"
  let ?bad = "\<lparr>req_session_id = ''s1'',
         req_history = [\<lparr>cm_role = ''assistant'', cm_content = ''hello''\<rparr>]\<rparr>"
  let ?ok = "\<lparr>req_session_id = ''s1'',
         req_history = [\<lparr>cm_role = ''user'', cm_content = ''hello''\<rparr>]\<rparr>"
  have h1: "req_history ?bad = [] \<or> cm_role (last (req_history ?bad)) \<noteq> ''user''"
    by simp
  have h2: "req_history ?ok \<noteq> [] \<and> cm_role (last (req_history ?ok)) = ''user''
        \<and> ?db (req_session_id ?ok) = Store_Returns None"
    by simp
  from continue_chat_validation [of ?bad ?db ?bp ?gen] h1
  have a: "\<exists>detail. continue_chat ?db ?bp ?gen ?bad = (Inl (HTTPException 400 detail), [])"
    by blast
  from continue_chat_validation [of ?ok ?db ?bp ?gen] h2
  have b: "(\<exists>detail. fst (continue_chat ?db ?bp ?gen ?ok) = Inl (HTTPException 404 detail))
      \<and> Llm_Call \<notin> set (snd (continue_chat ?db ?bp ?gen ?ok))"
    by blast
  from a b show ?thesis by blast
qed

end
